theory Spec2Isabelle
  imports Complex_Main "HOL-Library.Sublist"
begin

section \<open>Python values and exceptions\<close>

text \<open>
  The values \<^verbatim>\<open>build_model.py\<close> handles: the cells of a table read from CSV
  (a string, the float NaN of a missing cell, an integer, a boolean) and the literals
  that \<^verbatim>\<open>ast.literal_eval\<close> decodes (\<^verbatim>\<open>None\<close>, booleans, integers, strings, lists
  and dicts). A dict is the list of its items in insertion order; a lookup takes the
  first item with the key. Floats other than NaN, bytes, tuples and sets are left out.
\<close>

datatype pyval =
    PNone
  | PNaN
  | PBool bool
  | PInt int
  | PStr string
  | PList "pyval list"
  | PDict "(pyval \<times> pyval) list"

text \<open>Every exception below is a subclass of \<^verbatim>\<open>Exception\<close>, so \<^verbatim>\<open>except Exception\<close> catches it.\<close>

datatype error =
    ValueError
  | SyntaxError
  | AttributeError
  | TypeError
  | KeyError
  | OSError

text \<open>
  A table (a pandas \<^verbatim>\<open>DataFrame\<close>): its column names and its rows in positional order,
  each row (a \<^verbatim>\<open>Series\<close>) a map from column name to value.
\<close>

type_synonym series = "string \<rightharpoonup> pyval"

record frame =
  columns :: "string list"
  rows :: "series list"

text \<open>What a path of the file system holds.\<close>

datatype fsnode =
    Directory
  | CsvFile string
  | PickledFrame frame
  | PickledMatrix "real list list"

text \<open>
  The library functions the program calls. Their code is not part of the repository, so
  the model takes them as parameters: \<^verbatim>\<open>ast.literal_eval\<close> on a string (it raises on
  text that is not a literal), \<^verbatim>\<open>repr\<close> (to which \<^verbatim>\<open>str\<close> delegates on numbers and
  containers; it raises \<^verbatim>\<open>ValueError\<close> on an integer whose decimal text is longer than the
  interpreter's limit of 4300 digits), \<^verbatim>\<open>str.lower\<close>, \<^verbatim>\<open>pd.read_csv\<close> on what the path holds, the left merge
  of lines 79 and 80 (the renaming of the key column of the credits, the selection of
  \<^verbatim>\<open>id\<close>, \<^verbatim>\<open>cast\<close> and \<^verbatim>\<open>crew\<close>, and \<^verbatim>\<open>DataFrame.merge\<close>), and
  \<^verbatim>\<open>CountVectorizer(max_features=5000, stop_words='english').fit_transform\<close>, one row of
  counts per document.
\<close>

record pylib =
  ast_literal_eval :: "string \<Rightarrow> error + pyval"
  py_repr :: "pyval \<Rightarrow> error + string"
  str_lower :: "string \<Rightarrow> string"
  pd_read_csv :: "fsnode \<Rightarrow> error + frame"
  df_merge :: "frame \<Rightarrow> frame \<Rightarrow> error + frame"
  cv_fit_transform :: "string list \<Rightarrow> error + nat list list"

text \<open>Truth value of an object (\<^verbatim>\<open>if x\<close>, \<^verbatim>\<open>x or y\<close>, \<^verbatim>\<open>x and y\<close>). NaN is a non-zero float: true.\<close>

fun truthy :: "pyval \<Rightarrow> bool" where
  "truthy PNone = False"
| "truthy PNaN = True"
| "truthy (PBool b) = b"
| "truthy (PInt n) = (n \<noteq> 0)"
| "truthy (PStr s) = (s \<noteq> [])"
| "truthy (PList xs) = (xs \<noteq> [])"
| "truthy (PDict kvs) = (kvs \<noteq> [])"

definition py_or :: "pyval \<Rightarrow> pyval \<Rightarrow> pyval" where
  "py_or a b = (if truthy a then a else b)"

text \<open>\<^verbatim>\<open>pd.isna\<close> on a scalar. (On a list it works elementwise; the pipeline applies it to cells.)\<close>

fun isna :: "pyval \<Rightarrow> bool" where
  "isna PNone = True"
| "isna PNaN = True"
| "isna _ = False"

fun is_cell :: "pyval \<Rightarrow> bool" where
  "is_cell (PList xs) = False"
| "is_cell (PDict kvs) = False"
| "is_cell _ = True"

text \<open>
  \<^verbatim>\<open>str(x)\<close>: a string is itself; the other types print their \<^verbatim>\<open>repr\<close>, which may raise
  for an integer, and for a list or dict that holds one.
\<close>

definition py_str :: "pylib \<Rightarrow> pyval \<Rightarrow> error + string" where
  "py_str L v =
     (case v of
        PStr s \<Rightarrow> Inr s
      | PNone \<Rightarrow> Inr ''None''
      | PNaN \<Rightarrow> Inr ''nan''
      | PBool b \<Rightarrow> Inr (if b then ''True'' else ''False'')
      | _ \<Rightarrow> py_repr L v)"

text \<open>\<^verbatim>\<open>d.get(key)\<close> with a string key: \<^verbatim>\<open>None\<close> when the key is missing.\<close>

definition dict_get :: "(pyval \<times> pyval) list \<Rightarrow> string \<Rightarrow> pyval" where
  "dict_get kvs k = (case map_of kvs (PStr k) of None \<Rightarrow> PNone | Some v \<Rightarrow> v)"

section \<open>String methods\<close>

text \<open>
  \<^verbatim>\<open>s.replace(old, new)\<close>: every occurrence of \<open>old\<close>, found from the left without
  overlap, becomes \<open>new\<close>; an empty \<open>old\<close> matches before every character and at the end.
\<close>

function str_replace :: "string \<Rightarrow> string \<Rightarrow> string \<Rightarrow> string" where
  "str_replace old new s =
     (if old = [] then new @ concat (map (\<lambda>c. c # new) s)
      else if s = [] then []
      else if prefix old s then new @ str_replace old new (drop (length old) s)
      else hd s # str_replace old new (tl s))"
  by pat_completeness auto
termination
  by (relation "measure (\<lambda>(old, new, s). length s)") auto

declare str_replace.simps [simp del]

text \<open>The method call \<^verbatim>\<open>x.replace(old, new)\<close>: only a string has the attribute.\<close>

definition py_replace :: "pyval \<Rightarrow> string \<Rightarrow> string \<Rightarrow> error + pyval" where
  "py_replace x old new =
     (case x of PStr s \<Rightarrow> Inr (PStr (str_replace old new s)) | _ \<Rightarrow> Inl AttributeError)"

text \<open>\<^verbatim>\<open>ast.literal_eval(x)\<close>: an argument that is neither a string nor a syntax node is a \<^verbatim>\<open>ValueError\<close>.\<close>

definition py_literal_eval :: "pylib \<Rightarrow> pyval \<Rightarrow> error + pyval" where
  "py_literal_eval L x = (case x of PStr s \<Rightarrow> ast_literal_eval L s | _ \<Rightarrow> Inl ValueError)"

section \<open>The field decoders\<close>

text \<open>
  The \<^verbatim>\<open>try\<close> blocks of \<^verbatim>\<open>parse_field\<close> (lines 13 to 20) and \<^verbatim>\<open>get_crew_director\<close>
  (lines 40 to 46), which are the same text: \<open>Some data\<close> when one of the two attempts
  decodes, \<open>None\<close> when the function takes its \<^verbatim>\<open>return []\<close>.
\<close>

definition try_literal_eval :: "pylib \<Rightarrow> pyval \<Rightarrow> pyval option" where
  "try_literal_eval L x =
     (case py_literal_eval L x of
        Inr data \<Rightarrow> Some data
      | Inl e \<Rightarrow>
          (case py_replace x [CHR 0x22, CHR 0x22] [CHR 0x22] of
             Inl e' \<Rightarrow> None
           | Inr x' \<Rightarrow>
               (case py_literal_eval L x' of
                  Inr data \<Rightarrow> Some data
                | Inl e' \<Rightarrow> None)))"

text \<open>
  The loop of \<^verbatim>\<open>parse_field\<close> (lines 23 to 27), with \<open>names\<close> the list built so far.
  \<^verbatim>\<open>str(name)\<close> at line 27 stands outside the \<^verbatim>\<open>try\<close> blocks: its exception leaves the
  function.
\<close>

fun names_loop :: "pylib \<Rightarrow> string list \<Rightarrow> pyval list \<Rightarrow> error + string list" where
  "names_loop L names [] = Inr names"
| "names_loop L names (item # items) =
     (case item of
        PDict kvs \<Rightarrow>
          (let name = py_or (dict_get kvs ''name'') (dict_get kvs ''title'')
           in if truthy name
              then (case py_str L name of
                      Inl e \<Rightarrow> Inl e
                    | Inr s \<Rightarrow> names_loop L (names @ [s]) items)
              else names_loop L names items)
      | _ \<Rightarrow> names_loop L names items)"

definition parse_field :: "pylib \<Rightarrow> pyval \<Rightarrow> error + string list" where
  "parse_field L x =
     (if isna x then Inr []
      else case try_literal_eval L x of
             None \<Rightarrow> Inr []
           | Some data \<Rightarrow>
               (case data of
                  PList items \<Rightarrow> names_loop L [] items
                | _ \<Rightarrow> Inr []))"

text \<open>\<^verbatim>\<open>names[:top_n]\<close>: a negative bound counts from the end.\<close>

definition slice_to :: "'a list \<Rightarrow> int \<Rightarrow> 'a list" where
  "slice_to xs n = (if 0 \<le> n then take (nat n) xs else take (nat (int (length xs) + n)) xs)"

definition get_cast :: "pylib \<Rightarrow> pyval \<Rightarrow> int \<Rightarrow> error + string list" where
  "get_cast L x top_n =
     (case parse_field L x of
        Inl e \<Rightarrow> Inl e
      | Inr names \<Rightarrow> Inr (slice_to names top_n))"

text \<open>
  The condition of line 50. \<^verbatim>\<open>item.get('job').lower()\<close> is reached only for a true
  value; a true value that is not a string has no \<^verbatim>\<open>lower\<close>: \<^verbatim>\<open>AttributeError\<close>.
\<close>

definition job_test :: "pylib \<Rightarrow> pyval \<Rightarrow> error + bool" where
  "job_test L item =
     (case item of
        PDict kvs \<Rightarrow>
          (let job = dict_get kvs ''job''
           in if \<not> truthy job then Inr False
              else case job of
                     PStr s \<Rightarrow> Inr (str_lower L s = ''director'')
                   | _ \<Rightarrow> Inl AttributeError)
      | _ \<Rightarrow> Inr False)"

definition item_get :: "pyval \<Rightarrow> string \<Rightarrow> pyval" where
  "item_get item k = (case item of PDict kvs \<Rightarrow> dict_get kvs k | _ \<Rightarrow> PNone)"

text \<open>The loop of \<^verbatim>\<open>get_crew_director\<close> (lines 49 to 51); an exception leaves it at once.\<close>

fun directors_loop :: "pylib \<Rightarrow> pyval list \<Rightarrow> pyval list \<Rightarrow> error + pyval list" where
  "directors_loop L directors [] = Inr directors"
| "directors_loop L directors (item # items) =
     (case job_test L item of
        Inl e \<Rightarrow> Inl e
      | Inr b \<Rightarrow>
          (if b then directors_loop L (directors @ [item_get item ''name'']) items
           else directors_loop L directors items))"

definition get_crew_director :: "pylib \<Rightarrow> pyval \<Rightarrow> error + pyval list" where
  "get_crew_director L x =
     (if isna x then Inr []
      else case try_literal_eval L x of
             None \<Rightarrow> Inr []
           | Some data \<Rightarrow>
               (case data of
                  PList items \<Rightarrow> directors_loop L [] items
                | _ \<Rightarrow> Inr []))"

section \<open>The tag token normalizer\<close>

fun clean_token_list :: "pylib \<Rightarrow> pyval list \<Rightarrow> string list" where
  "clean_token_list L [] = []"
| "clean_token_list L (t # lst) =
     (case t of
        PStr s \<Rightarrow> str_lower L (str_replace '' '' '''' s) # clean_token_list L lst
      | _ \<Rightarrow> clean_token_list L lst)"

section \<open>The item tag aggregator\<close>

text \<open>Sequencing of steps that may raise: the first exception ends the computation.\<close>

definition seq :: "error + 'a \<Rightarrow> ('a \<Rightarrow> error + 'b) \<Rightarrow> error + 'b" where
  "seq m f = (case m of Inl e \<Rightarrow> Inl e | Inr v \<Rightarrow> f v)"

text \<open>\<^verbatim>\<open>row.get(key)\<close> on a row: \<^verbatim>\<open>None\<close> when the row has no such column.\<close>

definition row_get :: "series \<Rightarrow> string \<Rightarrow> pyval" where
  "row_get row k = (case row k of None \<Rightarrow> PNone | Some v \<Rightarrow> v)"

text \<open>
  \<^verbatim>\<open>for t in v\<close>: a list gives its elements, a string its characters, a dict its keys;
  the other values are not iterable.
\<close>

definition py_iter :: "pyval \<Rightarrow> error + pyval list" where
  "py_iter v =
     (case v of
        PList xs \<Rightarrow> Inr xs
      | PStr s \<Rightarrow> Inr (map (\<lambda>c. PStr [c]) s)
      | PDict kvs \<Rightarrow> Inr (map fst kvs)
      | _ \<Rightarrow> Inl TypeError)"

text \<open>\<^verbatim>\<open>sep.join(xs)\<close> on a list of strings.\<close>

fun str_join :: "string \<Rightarrow> string list \<Rightarrow> string" where
  "str_join sep [] = []"
| "str_join sep [x] = x"
| "str_join sep (x # y # ys) = x @ sep @ str_join sep (y # ys)"

text \<open>\<^verbatim>\<open>clean_token_list(row.get(key) or [])\<close>, as lines 88 to 91 call it.\<close>

definition clean_column :: "pylib \<Rightarrow> series \<Rightarrow> string \<Rightarrow> error + string list" where
  "clean_column L row k =
     seq (py_iter (py_or (row_get row k) (PList []))) (\<lambda>lst. Inr (clean_token_list L lst))"

text \<open>\<open>f\<close> on each element in order, as a comprehension and \<^verbatim>\<open>Series.apply\<close> do; the first exception ends it.\<close>

fun apply_each :: "('a \<Rightarrow> error + 'b) \<Rightarrow> 'a list \<Rightarrow> error + 'b list" where
  "apply_each f [] = Inr []"
| "apply_each f (x # xs) =
     seq (f x) (\<lambda>y. seq (apply_each f xs) (\<lambda>ys. Inr (y # ys)))"

definition make_tags :: "pylib \<Rightarrow> series \<Rightarrow> error + string" where
  "make_tags L row =
     (let overview = py_or (row_get row ''overview'') (PStr '''')
      in seq (clean_column L row ''genres_parsed'') (\<lambda>genres.
         seq (clean_column L row ''keywords_parsed'') (\<lambda>keywords.
         seq (clean_column L row ''cast_parsed'') (\<lambda>cast.
         seq (clean_column L row ''director_parsed'') (\<lambda>director.
           let parts = [overview] @ map PStr genres @ map PStr keywords
                       @ map PStr cast @ map PStr director
           in seq (apply_each (py_str L) (filter truthy parts)) (\<lambda>texts.
              Inr (str_join '' '' texts)))))))"

section \<open>The similarity engine\<close>

text \<open>
  Modelled from the spec: \<^verbatim>\<open>cosine_similarity\<close> is scikit-learn's, called at line 102
  and not part of the repository. Section 4.6 of the specification gives it as
  \<^verbatim>\<open>sim[i][j] = dot(row_i, row_j) / (||row_i|| * ||row_j||)\<close>, a pair with a zero vector
  having similarity 0. The model computes in the real numbers; the rounding of floating
  point is not modelled. First the dot product of two rows of counts.
\<close>

definition dot :: "nat list \<Rightarrow> nat list \<Rightarrow> nat" where
  "dot u v = sum_list (map2 (*) u v)"

text \<open>Modelled from the spec: the norm \<^verbatim>\<open>||row||\<close> of section 4.6, the root of the row's dot product with itself.\<close>

definition norm2 :: "nat list \<Rightarrow> real" where
  "norm2 u = sqrt (real (dot u u))"

text \<open>
  Modelled from the spec: the similarity of two rows as section 4.6 defines it, 0 for a
  pair with a zero vector (the self-pair of a zero vector included).
\<close>

definition cosine :: "nat list \<Rightarrow> nat list \<Rightarrow> real" where
  "cosine u v =
     (if norm2 u = 0 \<or> norm2 v = 0 then 0
      else real (dot u v) / (norm2 u * norm2 v))"

text \<open>Modelled from the spec: the all-pairs matrix of section 4.6 that \<^verbatim>\<open>cosine_similarity\<close> returns.\<close>

definition cosine_similarity :: "nat list list \<Rightarrow> real list list" where
  "cosine_similarity X = map (\<lambda>u. map (\<lambda>v. cosine u v) X) X"

section \<open>The pipeline\<close>

record world =
  files :: "string \<rightharpoonup> fsnode"
  stdout :: "string list"

definition movies_csv :: string where
  "movies_csv = ''Movies 500.csv''"

definition credits_csv :: string where
  "credits_csv = ''Credits 500.csv''"

definition missing_message :: string where
  "missing_message =
     ''Required CSV files not found. Place '' @ [CHR 0x22] @ ''Movies 500.csv'' @ [CHR 0x22]
     @ '' and '' @ [CHR 0x22] @ ''Credits 500.csv'' @ [CHR 0x22] @ '' here.''"

definition built_message :: string where
  "built_message = ''Built model files: model/movie_list.pkl and model/similarity.pkl''"

definition path_exists :: "world \<Rightarrow> string \<Rightarrow> bool" where
  "path_exists w p = (files w p \<noteq> None)"

definition print :: "string \<Rightarrow> world \<Rightarrow> world" where
  "print s w = w\<lparr>stdout := stdout w @ [s]\<rparr>"

text \<open>\<^verbatim>\<open>df[c]\<close>: the values of a column in row order; \<^verbatim>\<open>KeyError\<close> for a name that is no column.\<close>

definition frame_col :: "frame \<Rightarrow> string \<Rightarrow> error + pyval list" where
  "frame_col df c =
     (if c \<in> set (columns df) then Inr (map (\<lambda>row. row_get row c) (rows df))
      else Inl KeyError)"

text \<open>\<^verbatim>\<open>df[c] = values\<close>: the column is replaced, or added as the last one; the rows keep their positions.\<close>

definition frame_set :: "frame \<Rightarrow> string \<Rightarrow> pyval list \<Rightarrow> frame" where
  "frame_set df c vs =
     df\<lparr>columns := (if c \<in> set (columns df) then columns df else columns df @ [c]),
        rows := map2 (\<lambda>row v. row(c \<mapsto> v)) (rows df) vs\<rparr>"

definition str_list :: "string list \<Rightarrow> pyval" where
  "str_list names = PList (map PStr names)"

text \<open>Lines 68 to 95: from what the two paths hold to the enriched table, tags included.\<close>

definition enrich :: "pylib \<Rightarrow> fsnode \<Rightarrow> fsnode \<Rightarrow> error + frame" where
  "enrich L movies_file credits_file =
     seq (pd_read_csv L movies_file) (\<lambda>movies0.
     seq (pd_read_csv L credits_file) (\<lambda>credits.
     seq (frame_col movies0 ''id'') (\<lambda>ids.
     let movies1 = frame_set movies0 ''movie_id'' ids in
     seq (frame_col movies1 ''genres'') (\<lambda>genres.
     seq (apply_each (parse_field L) genres) (\<lambda>genres_parsed.
     let movies2 = frame_set movies1 ''genres_parsed'' (map str_list genres_parsed) in
     seq (frame_col movies2 ''keywords'') (\<lambda>keywords.
     seq (apply_each (parse_field L) keywords) (\<lambda>keywords_parsed.
     let movies3 = frame_set movies2 ''keywords_parsed'' (map str_list keywords_parsed) in
     seq (df_merge L movies3 credits) (\<lambda>merged0.
     seq (frame_col merged0 ''cast'') (\<lambda>cast.
     seq (apply_each (\<lambda>x. get_cast L x 3) cast) (\<lambda>cast_parsed.
     let merged1 = frame_set merged0 ''cast_parsed'' (map str_list cast_parsed) in
     seq (frame_col merged1 ''crew'') (\<lambda>crew.
     seq (apply_each (get_crew_director L) crew) (\<lambda>director_parsed.
     let merged2 = frame_set merged1 ''director_parsed'' (map PList director_parsed) in
     seq (apply_each (make_tags L) (rows merged2)) (\<lambda>tags.
     Inr (frame_set merged2 ''tags'' (map PStr tags)))))))))))))))"

text \<open>
  Lines 68 to 102: the enriched table, its tag column as text (\<^verbatim>\<open>astype('str')\<close>)
  vectorized, and the similarity matrix.
\<close>

definition build :: "pylib \<Rightarrow> fsnode \<Rightarrow> fsnode \<Rightarrow> error + frame \<times> real list list" where
  "build L movies_file credits_file =
     seq (enrich L movies_file credits_file) (\<lambda>merged.
     seq (frame_col merged ''tags'') (\<lambda>tags_col.
     seq (apply_each (py_str L) tags_col) (\<lambda>docs.
     seq (cv_fit_transform L docs) (\<lambda>vectors.
     Inr (merged, cosine_similarity vectors)))))"

text \<open>\<^verbatim>\<open>os.makedirs(p, exist_ok=True)\<close>: an existing directory is kept, a file at the path is an error.\<close>

definition makedirs :: "string \<Rightarrow> world \<Rightarrow> error + world" where
  "makedirs p w =
     (case files w p of
        None \<Rightarrow> Inr (w\<lparr>files := (files w)(p \<mapsto> Directory)\<rparr>)
      | Some Directory \<Rightarrow> Inr w
      | Some _ \<Rightarrow> Inl OSError)"

text \<open>\<^verbatim>\<open>open(p, 'wb')\<close> followed by \<^verbatim>\<open>pickle.dump\<close>: a directory cannot be opened for writing.\<close>

definition dump :: "string \<Rightarrow> fsnode \<Rightarrow> world \<Rightarrow> error + world" where
  "dump p content w =
     (case files w p of
        Some Directory \<Rightarrow> Inl OSError
      | _ \<Rightarrow> Inr (w\<lparr>files := (files w)(p \<mapsto> content)\<rparr>))"

text \<open>
  \<^verbatim>\<open>main\<close>: the world it leaves, and the exception it ends with, if any. An exception
  keeps what was written before it.
\<close>

definition main :: "pylib \<Rightarrow> world \<Rightarrow> world \<times> error option" where
  "main L w =
     (if \<not> (path_exists w movies_csv \<and> path_exists w credits_csv)
      then (print missing_message w, None)
      else
        case (files w movies_csv, files w credits_csv) of
          (Some movies_file, Some credits_file) \<Rightarrow>
            (case build L movies_file credits_file of
               Inl e \<Rightarrow> (w, Some e)
             | Inr (out_movies, similarity) \<Rightarrow>
                 (case makedirs ''model'' w of
                    Inl e \<Rightarrow> (w, Some e)
                  | Inr w1 \<Rightarrow>
                      (case dump ''model/movie_list.pkl'' (PickledFrame out_movies) w1 of
                         Inl e \<Rightarrow> (w1, Some e)
                       | Inr w2 \<Rightarrow>
                           (case dump ''model/similarity.pkl'' (PickledMatrix similarity) w2 of
                              Inl e \<Rightarrow> (w2, Some e)
                            | Inr w3 \<Rightarrow> (print built_message w3, None)))))
        | _ \<Rightarrow> (w, Some OSError))"

section \<open>The properties in the words of the specification\<close>

text \<open>The string elements of a list, in order.\<close>

fun strings_of :: "pyval list \<Rightarrow> string list" where
  "strings_of [] = []"
| "strings_of (PStr s # lst) = s # strings_of lst"
| "strings_of (v # lst) = strings_of lst"

text \<open>The whitespace of ASCII (\<^verbatim>\<open>string.whitespace\<close>): space, tab, line feed, vertical tab, form feed, carriage return.\<close>

definition is_whitespace :: "char \<Rightarrow> bool" where
  "is_whitespace c = (c \<in> set [CHR 0x20, CHR 0x09, CHR 0x0A, CHR 0x0B, CHR 0x0C, CHR 0x0D])"

text \<open>Collapsing doubled quote characters, read from the left.\<close>

fun collapse_quotes :: "string \<Rightarrow> string" where
  "collapse_quotes (c # d # cs) =
     (if c = CHR 0x22 \<and> d = CHR 0x22 then CHR 0x22 # collapse_quotes cs
      else c # collapse_quotes (d # cs))"
| "collapse_quotes [c] = [c]"
| "collapse_quotes [] = []"

text \<open>
  Section 4.1: primary decoding, then one retry on the text with its doubled quotes
  collapsed; \<open>None\<close> when both fail or when the field is no text.
\<close>

definition decoded :: "pylib \<Rightarrow> pyval \<Rightarrow> pyval option" where
  "decoded L x =
     (case x of
        PStr s \<Rightarrow>
          (case ast_literal_eval L s of
             Inr data \<Rightarrow> Some data
           | Inl e \<Rightarrow>
               (case ast_literal_eval L (collapse_quotes s) of
                  Inr data \<Rightarrow> Some data
                | Inl e' \<Rightarrow> None))
      | _ \<Rightarrow> None)"

text \<open>The records of a field: the elements of the decoded list; none for any other field.\<close>

definition records :: "pylib \<Rightarrow> pyval \<Rightarrow> pyval list" where
  "records L x = (case decoded L x of Some (PList items) \<Rightarrow> items | _ \<Rightarrow> [])"

text \<open>
  The value that names a record: that of \<^verbatim>\<open>name\<close>, else that of \<^verbatim>\<open>title\<close>; none for a
  record without either and for an element that is no mapping.
\<close>

fun record_value :: "pyval \<Rightarrow> pyval list" where
  "record_value (PDict kvs) =
     (if truthy (dict_get kvs ''name'') then [dict_get kvs ''name'']
      else if truthy (dict_get kvs ''title'') then [dict_get kvs ''title'']
      else [])"
| "record_value v = []"

definition named_values :: "pyval list \<Rightarrow> pyval list" where
  "named_values items = concat (map record_value items)"

text \<open>The names of the records, in record order: each naming value as text, when every one prints.\<close>

definition record_names :: "pylib \<Rightarrow> pyval list \<Rightarrow> error + string list" where
  "record_names L items = apply_each (py_str L) (named_values items)"

text \<open>A value whose \<^verbatim>\<open>str\<close> returns.\<close>

definition printable :: "pylib \<Rightarrow> pyval \<Rightarrow> bool" where
  "printable L v = (case py_str L v of Inr s \<Rightarrow> True | Inl e \<Rightarrow> False)"

fun has_key :: "pyval \<Rightarrow> string \<Rightarrow> bool" where
  "has_key (PDict kvs) k = (map_of kvs (PStr k) \<noteq> None)"
| "has_key v k = False"

text \<open>A record whose \<^verbatim>\<open>job\<close> is a text equal to \<^verbatim>\<open>director\<close> up to case.\<close>

fun is_director :: "pylib \<Rightarrow> pyval \<Rightarrow> bool" where
  "is_director L (PDict kvs) =
     (case map_of kvs (PStr ''job'') of
        Some (PStr s) \<Rightarrow> s \<noteq> [] \<and> str_lower L s = ''director''
      | _ \<Rightarrow> False)"
| "is_director L v = False"

text \<open>A column value that is absent, false, or a list.\<close>

fun optional_list :: "pyval option \<Rightarrow> bool" where
  "optional_list None = True"
| "optional_list (Some (PList xs)) = True"
| "optional_list (Some v) = (\<not> truthy v)"

text \<open>
  Section 4.4: what the synopsis contributes to the tag string, its text, and nothing
  when it is absent (no such column, or the missing cell of the table) or false.
\<close>

definition synopsis :: "pylib \<Rightarrow> series \<Rightarrow> error + string list" where
  "synopsis L row =
     (case row ''overview'' of
        None \<Rightarrow> Inr []
      | Some v \<Rightarrow>
          if isna v \<or> \<not> truthy v then Inr []
          else seq (py_str L v) (\<lambda>s. Inr [s]))"

text \<open>What a token column contributes: its normalized tokens, nothing when it is absent or false.\<close>

definition tokens :: "pylib \<Rightarrow> series \<Rightarrow> string \<Rightarrow> string list" where
  "tokens L row k =
     (case row k of
        Some (PList xs) \<Rightarrow> filter (\<lambda>t. t \<noteq> []) (clean_token_list L xs)
      | _ \<Rightarrow> [])"

text \<open>Section 4.4: the tag string, the space-join of the five contributions in their fixed order.\<close>

definition tag_string :: "pylib \<Rightarrow> series \<Rightarrow> error + string" where
  "tag_string L row =
     seq (synopsis L row) (\<lambda>syn.
       Inr (str_join '' '' (syn @ tokens L row ''genres_parsed'' @ tokens L row ''keywords_parsed''
              @ tokens L row ''cast_parsed'' @ tokens L row ''director_parsed'')))"

definition parsed_columns :: "string list" where
  "parsed_columns = [''genres_parsed'', ''keywords_parsed'', ''cast_parsed'', ''director_parsed'']"

definition zero_vector :: "nat list \<Rightarrow> bool" where
  "zero_vector u = list_all (\<lambda>x. x = 0) u"

definition movie_list_pkl :: string where
  "movie_list_pkl = ''model/movie_list.pkl''"

definition similarity_pkl :: string where
  "similarity_pkl = ''model/similarity.pkl''"

text \<open>The tag column of a table, as the documents given to the vectorizer.\<close>

definition tags_of :: "pylib \<Rightarrow> frame \<Rightarrow> error + string list" where
  "tags_of L df = apply_each (py_str L) (map (\<lambda>row. row_get row ''tags'') (rows df))"

section \<open>A library for concrete runs\<close>

text \<open>
  \<^verbatim>\<open>str.lower\<close> on ASCII text: the letters A to Z move to a to z, every other
  character stays.
\<close>

definition lower_char :: "char \<Rightarrow> char" where
  "lower_char c =
     (let n = (of_char c :: nat) in if 65 \<le> n \<and> n \<le> 90 then char_of (n + 32) else c)"

definition ascii_lower :: "string \<Rightarrow> string" where
  "ascii_lower s = map lower_char s"

text \<open>Field texts, and beside each the value \<^verbatim>\<open>ast.literal_eval\<close> gives for it.\<close>

definition genres_alpha :: string where
  "genres_alpha = ''[{'name': 'Science Fiction'}]''"

definition keywords_alpha :: string where
  "keywords_alpha = ''[{'name': 'alien'}]''"

definition genres_beta :: string where
  "genres_beta = ''[{'name': 'Drama'}]''"

definition cast_alpha :: string where
  "cast_alpha = ''[{'name': 'Tom Hanks'}]''"

definition crew_alpha :: string where
  "crew_alpha = ''[{'job': 'Director', 'name': 'Jane Doe'}]''"

definition cast_four :: string where
  "cast_four = ''[{'name': 'Ann Lee'}, {'name': 'Bo'}, {'title': 'Cy'}, {'name': 'Di'}]''"

definition crew_nameless :: string where
  "crew_nameless = ''[{'job': 'DIRECTOR'}, {'job': 'Editor', 'name': 'Ed'}, {'name': 'Flo'}]''"

definition crew_number :: string where
  "crew_number = ''[{'job': 5}]''"

definition cast_json :: string where
  \<open>cast_json = ''[{"name": "Tom Hanks"}]''\<close>


definition named :: "string \<Rightarrow> pyval" where
  "named s = PDict [(PStr ''name'', PStr s)]"

definition sample_literals :: "(string \<times> pyval) list" where
  "sample_literals =
     [(genres_alpha, PList [named ''Science Fiction'']),
      (keywords_alpha, PList [named ''alien'']),
      (genres_beta, PList [named ''Drama'']),
      (''[]'', PList []),
      (cast_alpha, PList [named ''Tom Hanks'']),
      (cast_json, PList [named ''Tom Hanks'']),
      (crew_alpha, PList [PDict [(PStr ''job'', PStr ''Director''), (PStr ''name'', PStr ''Jane Doe'')]]),
      (cast_four, PList [named ''Ann Lee'', named ''Bo'', PDict [(PStr ''title'', PStr ''Cy'')], named ''Di'']),
      (crew_nameless,
         PList [PDict [(PStr ''job'', PStr ''DIRECTOR'')],
                PDict [(PStr ''job'', PStr ''Editor''), (PStr ''name'', PStr ''Ed'')],
                named ''Flo'']),
      (crew_number, PList [PDict [(PStr ''job'', PInt 5)]])]"

text \<open>Any other text used below (\<open>cast_doubled\<close>, \<^verbatim>\<open>not a list\<close>) is a syntax error for Python.\<close>

definition sample_literal_eval :: "string \<Rightarrow> error + pyval" where
  "sample_literal_eval s = (case map_of sample_literals s of Some v \<Rightarrow> Inr v | None \<Rightarrow> Inl SyntaxError)"

text \<open>Two tables as text, and beside each the table \<^verbatim>\<open>pd.read_csv\<close> gives for it.\<close>

definition movies_text :: string where
  "movies_text =
     ''id,title,overview,genres,keywords'' @ [CHR 0x0A]
     @ ''1,Alpha,space battle,'' @ genres_alpha @ '','' @ keywords_alpha @ [CHR 0x0A]
     @ ''2,Beta,space travel,'' @ genres_beta @ '',[]'' @ [CHR 0x0A]"

definition credits_text :: string where
  "credits_text =
     ''movie_id,cast,crew'' @ [CHR 0x0A]
     @ ''1,'' @ cast_alpha @ '','' @ [CHR 0x22] @ crew_alpha @ [CHR 0x22] @ [CHR 0x0A]"

definition movies_frame :: frame where
  "movies_frame =
     \<lparr>columns = [''id'', ''title'', ''overview'', ''genres'', ''keywords''],
      rows =
        [[''id'' \<mapsto> PInt 1, ''title'' \<mapsto> PStr ''Alpha'', ''overview'' \<mapsto> PStr ''space battle'',
          ''genres'' \<mapsto> PStr genres_alpha, ''keywords'' \<mapsto> PStr keywords_alpha],
         [''id'' \<mapsto> PInt 2, ''title'' \<mapsto> PStr ''Beta'', ''overview'' \<mapsto> PStr ''space travel'',
          ''genres'' \<mapsto> PStr genres_beta, ''keywords'' \<mapsto> PStr ''[]'']]\<rparr>"

definition credits_frame :: frame where
  "credits_frame =
     \<lparr>columns = [''movie_id'', ''cast'', ''crew''],
      rows = [[''movie_id'' \<mapsto> PInt 1, ''cast'' \<mapsto> PStr cast_alpha, ''crew'' \<mapsto> PStr crew_alpha]]\<rparr>"

definition sample_read_csv :: "fsnode \<Rightarrow> error + frame" where
  "sample_read_csv node =
     (case node of
        CsvFile text \<Rightarrow>
          (if text = movies_text then Inr movies_frame
           else if text = credits_text then Inr credits_frame
           else Inl ValueError)
      | _ \<Rightarrow> Inl OSError)"

text \<open>
  A left merge on the key: each row of the left table, in order, once per row of the
  right table with its key, or once with missing \<^verbatim>\<open>cast\<close> and \<^verbatim>\<open>crew\<close> when there is none.
\<close>

definition sample_merge :: "frame \<Rightarrow> frame \<Rightarrow> error + frame" where
  "sample_merge movies credits =
     (if ''id'' \<in> set (columns movies) \<and> set [''movie_id'', ''cast'', ''crew''] \<subseteq> set (columns credits)
      then Inr \<lparr>columns = columns movies @ [''cast'', ''crew''],
                rows = concat (map (\<lambda>m.
                  let matches = filter (\<lambda>c. row_get c ''movie_id'' = row_get m ''id'') (rows credits)
                  in if matches = [] then [m(''cast'' \<mapsto> PNaN, ''crew'' \<mapsto> PNaN)]
                     else map (\<lambda>c. m(''cast'' \<mapsto> row_get c ''cast'', ''crew'' \<mapsto> row_get c ''crew'')) matches)
                  (rows movies))\<rparr>
      else Inl KeyError)"

text \<open>
  The two tag strings of the tables above and their counts over the vocabulary, in
  alphabetical order: alien, battle, drama, janedoe, sciencefiction, space, tomhanks, travel.
\<close>

definition sample_corpus :: "string list" where
  "sample_corpus =
     [''space battle sciencefiction alien tomhanks janedoe'', ''space travel drama'']"

definition sample_vectors :: "nat list list" where
  "sample_vectors = [[1, 1, 0, 1, 1, 1, 1, 0], [0, 0, 1, 0, 0, 1, 0, 1]]"

definition sample_fit_transform :: "string list \<Rightarrow> error + nat list list" where
  "sample_fit_transform docs = (if docs = sample_corpus then Inr sample_vectors else Inl ValueError)"

text \<open>The decimal numeral of an integer, its \<^verbatim>\<open>repr\<close>.\<close>

fun nat_repr :: "nat \<Rightarrow> string" where
  "nat_repr n =
     (if n < 10 then [char_of (48 + n)] else nat_repr (n div 10) @ [char_of (48 + n mod 10)])"

declare nat_repr.simps [simp del]

definition int_repr :: "int \<Rightarrow> string" where
  "int_repr i = (if i < 0 then CHR ''-'' # nat_repr (nat (- i)) else nat_repr (nat i))"

text \<open>
  The interpreter's limit on the decimal text of an integer: from \<open>10 ^ 4300\<close> on, an
  integer has more than 4300 digits and its \<^verbatim>\<open>repr\<close> raises \<^verbatim>\<open>ValueError\<close>.
\<close>

definition digit_limit :: int where
  "digit_limit = 10 ^ 4300"

text \<open>The concrete runs print no list and no dict.\<close>

definition sample_repr :: "pyval \<Rightarrow> error + string" where
  "sample_repr v =
     (case v of
        PInt i \<Rightarrow>
          (if digit_limit \<le> i \<or> i \<le> - digit_limit then Inl ValueError else Inr (int_repr i))
      | _ \<Rightarrow> Inr ''...'')"

definition sample_lib :: pylib where
  "sample_lib =
     \<lparr>ast_literal_eval = sample_literal_eval,
      py_repr = sample_repr,
      str_lower = ascii_lower,
      pd_read_csv = sample_read_csv,
      df_merge = sample_merge,
      cv_fit_transform = sample_fit_transform\<rparr>"

definition sample_world :: world where
  "sample_world =
     \<lparr>files = [movies_csv \<mapsto> CsvFile movies_text, credits_csv \<mapsto> CsvFile credits_text],
      stdout = []\<rparr>"

text \<open>Rows and a world for concrete runs.\<close>

definition sample_row :: series where
  "sample_row =
     [''overview'' \<mapsto> PStr ''space battle'',
      ''genres_parsed'' \<mapsto> PList [PStr ''Science Fiction''],
      ''cast_parsed'' \<mapsto> PList [],
      ''director_parsed'' \<mapsto> PList [PNone, PStr ''Jane Doe'']]"

definition overview_row :: series where
  "overview_row = [''overview'' \<mapsto> PStr ''space battle'']"

definition credits_missing_world :: world where
  "credits_missing_world = \<lparr>files = [movies_csv \<mapsto> CsvFile movies_text], stdout = []\<rparr>"

text \<open>
  The row \<^verbatim>\<open>main\<close> builds for a movie whose \<^verbatim>\<open>overview\<close> cell is empty in the CSV, whose
  \<^verbatim>\<open>genres\<close> and \<^verbatim>\<open>keywords\<close> are \<^verbatim>\<open>[]\<close> and which has no credits: \<^verbatim>\<open>read_csv\<close> gives NaN
  for the empty cell.
\<close>

definition missing_overview_row :: series where
  "missing_overview_row =
     [''overview'' \<mapsto> PNaN,
      ''genres_parsed'' \<mapsto> PList [],
      ''keywords_parsed'' \<mapsto> PList [],
      ''cast_parsed'' \<mapsto> PList [],
      ''director_parsed'' \<mapsto> PList []]"

text \<open>
  A field whose record is named by an integer of 4335 digits, written in base 16 (the
  digit 1 and 3600 zeros), which \<^verbatim>\<open>ast.literal_eval\<close> decodes, and a library that knows it.
\<close>

definition big_int :: int where
  "big_int = 16 ^ 3600"

definition big_name_text :: string where
  "big_name_text = ''[{'name': 0x1'' @ replicate 3600 (CHR ''0'') @ ''}]''"

definition digits_literal_eval :: "string \<Rightarrow> error + pyval" where
  "digits_literal_eval s =
     (if s = big_name_text then Inr (PList [PDict [(PStr ''name'', PInt big_int)]])
      else sample_literal_eval s)"

definition digits_lib :: pylib where
  "digits_lib = sample_lib\<lparr>ast_literal_eval := digits_literal_eval\<rparr>"

section \<open>Facts about the string methods\<close>

lemma str_replace_space: "str_replace '' '' '''' s = filter (\<lambda>c. c \<noteq> CHR '' '') s"
proof (induction s)
  case Nil
  show ?case by (subst str_replace.simps) simp
next
  case (Cons c s)
  show ?case by (subst str_replace.simps) (simp add: Cons)
qed

lemma str_replace_quotes: "str_replace [CHR 0x22, CHR 0x22] [CHR 0x22] s = collapse_quotes s"
proof (induction s rule: collapse_quotes.induct)
  case (1 c d cs)
  then show ?case by (subst str_replace.simps) auto
next
  case (2 c)
  show ?case by (subst str_replace.simps) (simp, subst str_replace.simps, simp)
next
  case 3
  show ?case by (subst str_replace.simps) simp
qed

lemma clean_token_list_eq:
  "clean_token_list L lst = map (\<lambda>s. str_lower L (filter (\<lambda>c. c \<noteq> CHR '' '') s)) (strings_of lst)"
  by (induction lst rule: strings_of.induct) (simp_all add: str_replace_space)

lemma lower_char_idem: "lower_char (lower_char c) = lower_char c"
  by (simp add: lower_char_def Let_def)

lemma ascii_lower_idem: "ascii_lower (ascii_lower s) = ascii_lower s"
  by (simp add: ascii_lower_def lower_char_idem)

lemma lower_char_space: "lower_char c = CHR '' '' \<Longrightarrow> c = CHR '' ''"
proof -
  assume "lower_char c = CHR '' ''"
  then have "(of_char (lower_char c) :: nat) = of_char (CHR '' '')" by simp
  then have "(of_char c :: nat) = of_char (CHR '' '')"
    by (simp add: lower_char_def Let_def split: if_splits)
  then show ?thesis by (simp only: of_char_eq_iff)
qed

lemma ascii_lower_space: "CHR '' '' \<notin> set s \<Longrightarrow> CHR '' '' \<notin> set (ascii_lower s)"
  by (auto simp add: ascii_lower_def dest: lower_char_space [OF sym])

section \<open>The decoders meet their descriptions\<close>

lemma seq_Inr: "seq m f = Inr r \<Longrightarrow> \<exists>v. m = Inr v \<and> f v = Inr r"
  by (cases m) (simp_all add: seq_def)

lemma seq_Inl: "seq m f = Inl e \<Longrightarrow> m = Inl e \<or> (\<exists>v. m = Inr v \<and> f v = Inl e)"
  by (cases m) (simp_all add: seq_def)

lemma apply_each_append:
  "apply_each f (xs @ ys)
   = seq (apply_each f xs) (\<lambda>as. seq (apply_each f ys) (\<lambda>bs. Inr (as @ bs)))"
  by (induction xs) (auto simp add: seq_def split: sum.splits)


lemma apply_each_length: "apply_each f xs = Inr ys \<Longrightarrow> length ys = length xs"
  by (induction xs arbitrary: ys) (auto simp add: seq_def split: sum.splits)

lemma apply_each_returns:
  "\<forall>x \<in> set xs. \<exists>y. f x = Inr y \<Longrightarrow> \<exists>ys. apply_each f xs = Inr ys"
  by (induction xs) (auto simp add: seq_def)

lemma apply_each_PStr: "apply_each (py_str L) (map PStr ts) = Inr ts"
  by (induction ts) (simp_all add: seq_def py_str_def)

text \<open>The \<^verbatim>\<open>try\<close> blocks make exactly the two attempts of section 4.1.\<close>

lemma try_literal_eval_decoded: "try_literal_eval L x = decoded L x"
  by (cases x) (simp_all add: try_literal_eval_def decoded_def py_literal_eval_def py_replace_def
      str_replace_quotes split: sum.splits)

text \<open>The loop prints the naming values of the records in order and stops at the first that does not print.\<close>

lemma names_loop_eq:
  "names_loop L names items = seq (record_names L items) (\<lambda>ns. Inr (names @ ns))"
proof (induction items arbitrary: names)
  case Nil
  show ?case by (simp add: record_names_def named_values_def seq_def)
next
  case (Cons item items)
  have split: "record_names L (item # items)
      = seq (apply_each (py_str L) (record_value item))
          (\<lambda>as. seq (record_names L items) (\<lambda>bs. Inr (as @ bs)))"
    by (simp add: record_names_def named_values_def apply_each_append)
  show ?case
    unfolding split
    by (cases item)
       (auto simp add: Cons py_or_def Let_def seq_def split: sum.splits)
qed

lemma parse_field_eq:
  "parse_field L x
   = (case decoded L x of Some (PList items) \<Rightarrow> record_names L items | _ \<Rightarrow> Inr [])"
proof -
  have "isna x \<Longrightarrow> decoded L x = None"
    by (cases x) (simp_all add: decoded_def)
  then show ?thesis
    by (auto simp add: parse_field_def try_literal_eval_decoded names_loop_eq seq_def
        split: option.splits pyval.splits sum.splits)
qed

lemma job_test_eq: "job_test L item = Inr b \<Longrightarrow> b = is_director L item"
  by (cases item) (auto simp add: job_test_def Let_def dict_get_def split: option.splits pyval.splits if_splits)

lemma directors_loop_eq:
  "directors_loop L directors items = Inr ds \<Longrightarrow>
   ds = directors @ map (\<lambda>item. item_get item ''name'') (filter (is_director L) items)"
proof (induction items arbitrary: directors)
  case Nil
  then show ?case by simp
next
  case (Cons item items)
  from Cons.prems obtain b where b: "job_test L item = Inr b"
    by (auto split: sum.splits)
  then have d: "b = is_director L item" by (rule job_test_eq)
  show ?case
  proof (cases b)
    case True
    with Cons.prems b have "directors_loop L (directors @ [item_get item ''name'']) items = Inr ds"
      by simp
    from Cons.IH [OF this] True d show ?thesis by simp
  next
    case False
    with Cons.prems b have "directors_loop L directors items = Inr ds" by simp
    from Cons.IH [OF this] False d show ?thesis by simp
  qed
qed

lemma get_crew_director_eq:
  "get_crew_director L x = Inr ds \<Longrightarrow>
   ds = map (\<lambda>item. item_get item ''name'') (filter (is_director L) (records L x))"
  by (cases x) (auto simp add: get_crew_director_def records_def try_literal_eval_decoded decoded_def
      split: option.splits pyval.splits sum.splits if_splits dest: directors_loop_eq)


section \<open>The normalizer and the field decoder\<close>

lemma sample_lower: "str_lower sample_lib = ascii_lower"
  by (simp add: sample_lib_def)

lemma sample_eval: "ast_literal_eval sample_lib = sample_literal_eval"
  by (simp add: sample_lib_def)

text \<open>
  C8, as stated, fails: the normalizer removes the space character only. A tab inside a
  name is whitespace and stays in the token.
\<close>

theorem clean_token_list_tab_counterexample:
  "clean_token_list sample_lib [PStr [CHR ''A'', CHR 0x09, CHR ''b'']] = [[CHR ''a'', CHR 0x09, CHR ''b'']]
   \<and> is_whitespace (CHR 0x09)"
proof -
  have "ascii_lower [CHR ''A'', CHR 0x09, CHR ''b''] = [CHR ''a'', CHR 0x09, CHR ''b'']"
    by code_simp
  then show ?thesis
    by (simp add: clean_token_list_eq sample_lower is_whitespace_def)
qed

text \<open>
  C8, amended: for every input list, \<^verbatim>\<open>clean_token_list\<close> returns, for the string
  elements in order, the lowercase form of the string without its space characters;
  every element of the result is lowercase (a fixed point of \<^verbatim>\<open>str.lower\<close>) and holds no
  space character; an element that is not a string is dropped, and nothing is raised.
  The two facts used of \<^verbatim>\<open>str.lower\<close>: it is idempotent and adds no space.
\<close>

theorem clean_token_list_lowercase_no_spaces:
  assumes "\<forall>s. str_lower L (str_lower L s) = str_lower L s"
    and "\<forall>s. CHR '' '' \<notin> set s \<longrightarrow> CHR '' '' \<notin> set (str_lower L s)"
  shows "clean_token_list L lst =
           map (\<lambda>s. str_lower L (filter (\<lambda>c. c \<noteq> CHR '' '') s)) (strings_of lst)
         \<and> (\<forall>t \<in> set (clean_token_list L lst). str_lower L t = t \<and> CHR '' '' \<notin> set t)"
  using assms by (auto simp add: clean_token_list_eq)

theorem clean_token_list_lowercase_no_spaces_witness:
  "(\<forall>s. str_lower sample_lib (str_lower sample_lib s) = str_lower sample_lib s)
   \<and> clean_token_list sample_lib [PStr ''Tom Hanks'', PNone, PInt 3, PStr ''Ann Lee'']
       = [''tomhanks'', ''annlee'']
   \<and> str_lower sample_lib ''tomhanks'' = ''tomhanks''
   \<and> str_lower sample_lib ''annlee'' = ''annlee''
   \<and> CHR '' '' \<notin> set ''tomhanks'' \<and> CHR '' '' \<notin> set ''annlee''"
proof -
  have h1: "\<forall>s. str_lower sample_lib (str_lower sample_lib s) = str_lower sample_lib s"
    by (simp add: sample_lower ascii_lower_idem)
  have h2: "\<forall>s. CHR '' '' \<notin> set s \<longrightarrow> CHR '' '' \<notin> set (str_lower sample_lib s)"
    by (simp add: sample_lower ascii_lower_space)
  note T = clean_token_list_lowercase_no_spaces [OF h1 h2,
      of "[PStr ''Tom Hanks'', PNone, PInt 3, PStr ''Ann Lee'']"]
  have ev: "map (\<lambda>s. ascii_lower (filter (\<lambda>c. c \<noteq> CHR '' '') s))
              (strings_of [PStr ''Tom Hanks'', PNone, PInt 3, PStr ''Ann Lee''])
            = [''tomhanks'', ''annlee'']"
    by code_simp
  from T have "clean_token_list sample_lib [PStr ''Tom Hanks'', PNone, PInt 3, PStr ''Ann Lee'']
      = map (\<lambda>s. str_lower sample_lib (filter (\<lambda>c. c \<noteq> CHR '' '') s))
          (strings_of [PStr ''Tom Hanks'', PNone, PInt 3, PStr ''Ann Lee''])"
    by (rule conjunct1)
  with ev have val: "clean_token_list sample_lib [PStr ''Tom Hanks'', PNone, PInt 3, PStr ''Ann Lee'']
      = [''tomhanks'', ''annlee'']"
    by (simp only: sample_lower)
  from T have all: "\<forall>t \<in> set (clean_token_list sample_lib [PStr ''Tom Hanks'', PNone, PInt 3, PStr ''Ann Lee'']).
         str_lower sample_lib t = t \<and> CHR '' '' \<notin> set t"
    by (rule conjunct2)
  from all have "str_lower sample_lib ''tomhanks'' = ''tomhanks''
      \<and> str_lower sample_lib ''annlee'' = ''annlee''"
    unfolding val by simp
  with h1 val show ?thesis by simp
qed





text \<open>
  The exception the theorem leaves room for is real: a record named by an integer of
  more than 4300 digits is decoded, and \<^verbatim>\<open>str(name)\<close> at line 27 raises \<^verbatim>\<open>ValueError\<close>
  outside the \<^verbatim>\<open>try\<close> blocks.
\<close>

lemma power_ten_le_sixteen:
  assumes "a \<le> 3 * n" and "10 * n \<le> 4 * k"
  shows "(10::int) ^ a \<le> 16 ^ k"
proof -
  have "(10::int) ^ a \<le> 10 ^ (3 * n)"
    using assms(1) by (intro power_increasing) simp_all
  also have "\<dots> = ((10::int) ^ 3) ^ n" by (rule power_mult)
  also have "\<dots> \<le> ((2::int) ^ 10) ^ n" by (intro power_mono) simp_all
  also have "\<dots> = (2::int) ^ (10 * n)" by (rule power_mult [symmetric])
  also have "\<dots> \<le> (2::int) ^ (4 * k)"
    using assms(2) by (intro power_increasing) simp_all
  also have "\<dots> = ((2::int) ^ 4) ^ k" by (rule power_mult)
  also have "\<dots> = (16::int) ^ k" by simp
  finally show ?thesis .
qed

lemma digit_limit_le_big_int: "digit_limit \<le> big_int"
  unfolding digit_limit_def big_int_def
  by (rule power_ten_le_sixteen [where n = 1434]) simp_all

lemma big_int_nonzero: "big_int \<noteq> 0"
  unfolding big_int_def by (rule power_not_zero) simp

lemma big_int_repr: "py_repr digits_lib (PInt big_int) = Inl ValueError"
  using digit_limit_le_big_int by (simp add: digits_lib_def sample_lib_def sample_repr_def)

lemma big_name_decoded:
  "decoded digits_lib (PStr big_name_text) = Some (PList [PDict [(PStr ''name'', PInt big_int)]])"
  by (simp add: decoded_def digits_lib_def digits_literal_eval_def)

lemma parse_field_digit_limit: "parse_field digits_lib (PStr big_name_text) = Inl ValueError"
  using big_int_nonzero big_int_repr
  by (simp add: parse_field_eq big_name_decoded record_names_def named_values_def dict_get_def
      py_str_def seq_def)

section \<open>Cast and crew\<close>

lemma text_printable: "printable L (PStr s)"
  by (simp add: printable_def py_str_def)

lemma printable_iff: "printable L v \<longleftrightarrow> (\<exists>s. py_str L v = Inr s)"
  by (cases "py_str L v") (simp_all add: printable_def)

lemma record_names_returns:
  assumes "list_all (printable L) (named_values items)"
  shows "\<exists>names. record_names L items = Inr names \<and> length names = length (named_values items)"
proof -
  from assms have "\<forall>v \<in> set (named_values items). \<exists>s. py_str L v = Inr s"
    by (simp add: list_all_iff printable_iff)
  then obtain names where n: "record_names L items = Inr names"
    unfolding record_names_def by (blast dest: apply_each_returns)
  then have "length names = length (named_values items)"
    unfolding record_names_def by (rule apply_each_length)
  with n show ?thesis by blast
qed

text \<open>
  C6: for every well-formed cast field, one whose text decodes to a list of records with
  naming values that print (text names do), \<^verbatim>\<open>get_cast\<close> returns the first three names
  of the decoded name list: at most 3 names, a prefix of the full list, which
  \<^verbatim>\<open>parse_field\<close> builds in record order, one name per naming value.
\<close>

theorem get_cast_prefix:
  assumes "is_cell x" and "decoded L x = Some (PList items)"
    and "list_all (printable L) (named_values items)"
  shows "\<exists>names. record_names L items = Inr names
           \<and> length names = length (named_values items)
           \<and> parse_field L x = Inr names
           \<and> get_cast L x 3 = Inr (take 3 names)
           \<and> length (take 3 names) \<le> 3
           \<and> prefix (take 3 names) names"
proof -
  from record_names_returns [OF assms(3)] obtain names
    where n: "record_names L items = Inr names"
      and l: "length names = length (named_values items)"
    by blast
  from n assms(2) have p: "parse_field L x = Inr names"
    by (simp add: parse_field_eq)
  then have "get_cast L x 3 = Inr (take 3 names)"
    by (simp add: get_cast_def slice_to_def)
  with n l p show ?thesis by (auto simp add: take_is_prefix)
qed

lemma sample_decoded_cast_four:
  "decoded sample_lib (PStr cast_four)
   = Some (PList [named ''Ann Lee'', named ''Bo'', PDict [(PStr ''title'', PStr ''Cy'')], named ''Di''])"
  unfolding decoded_def sample_eval sample_literal_eval_def by code_simp

lemma sample_cast_four_values:
  "named_values [named ''Ann Lee'', named ''Bo'', PDict [(PStr ''title'', PStr ''Cy'')], named ''Di'']
   = [PStr ''Ann Lee'', PStr ''Bo'', PStr ''Cy'', PStr ''Di'']"
  by (simp add: named_values_def named_def dict_get_def)

theorem get_cast_prefix_witness:
  "is_cell (PStr cast_four)
   \<and> decoded sample_lib (PStr cast_four)
       = Some (PList [named ''Ann Lee'', named ''Bo'', PDict [(PStr ''title'', PStr ''Cy'')], named ''Di''])
   \<and> list_all (printable sample_lib)
        (named_values [named ''Ann Lee'', named ''Bo'', PDict [(PStr ''title'', PStr ''Cy'')], named ''Di''])
   \<and> parse_field sample_lib (PStr cast_four) = Inr [''Ann Lee'', ''Bo'', ''Cy'', ''Di'']
   \<and> get_cast sample_lib (PStr cast_four) 3 = Inr [''Ann Lee'', ''Bo'', ''Cy'']"
proof -
  have c: "is_cell (PStr cast_four)" by simp
  have p: "list_all (printable sample_lib)
      (named_values [named ''Ann Lee'', named ''Bo'', PDict [(PStr ''title'', PStr ''Cy'')], named ''Di''])"
    unfolding sample_cast_four_values by (simp add: text_printable)
  from get_cast_prefix [OF c sample_decoded_cast_four p] obtain names
    where n: "record_names sample_lib
        [named ''Ann Lee'', named ''Bo'', PDict [(PStr ''title'', PStr ''Cy'')], named ''Di''] = Inr names"
      and f: "parse_field sample_lib (PStr cast_four) = Inr names"
      and g: "get_cast sample_lib (PStr cast_four) 3 = Inr (take 3 names)"
    by blast
  from n have "names = [''Ann Lee'', ''Bo'', ''Cy'', ''Di'']"
    unfolding record_names_def sample_cast_four_values by (simp add: seq_def py_str_def)
  with c sample_decoded_cast_four p f g show ?thesis by simp
qed

lemma is_director_has_job: "is_director L item \<Longrightarrow> has_key item ''job''"
  by (cases item) (auto split: option.splits)

text \<open>
  C7: for every crew field, the list \<^verbatim>\<open>get_crew_director\<close> returns holds one entry,
  the value of \<^verbatim>\<open>name\<close>, for each record whose \<^verbatim>\<open>job\<close> equals \<^verbatim>\<open>director\<close> up to case, in
  record order, and no other entry; a record without the \<^verbatim>\<open>job\<close> key is not among them.
\<close>

theorem get_crew_director_only_directors:
  assumes "is_cell x" and "get_crew_director L x = Inr ds"
  shows "ds = map (\<lambda>item. item_get item ''name'') (filter (is_director L) (records L x))
         \<and> (\<forall>item \<in> set (records L x). \<not> has_key item ''job'' \<longrightarrow> \<not> is_director L item)"
  using assms get_crew_director_eq is_director_has_job by blast

lemma sample_records_nameless:
  "records sample_lib (PStr crew_nameless)
   = [PDict [(PStr ''job'', PStr ''DIRECTOR'')],
      PDict [(PStr ''job'', PStr ''Editor''), (PStr ''name'', PStr ''Ed'')],
      named ''Flo'']"
  unfolding records_def decoded_def sample_eval sample_literal_eval_def by code_simp

lemma sample_directors_nameless: "get_crew_director sample_lib (PStr crew_nameless) = Inr [PNone]"
  by code_simp

text \<open>
  The theorem above speaks of calls that return. A true \<^verbatim>\<open>job\<close> that is no string
  ends the call with an \<^verbatim>\<open>AttributeError\<close>, outside the \<^verbatim>\<open>try\<close> block.
\<close>

lemma get_crew_director_raises: "get_crew_director sample_lib (PStr crew_number) = Inl AttributeError"
  by code_simp

lemma sample_is_director:
  "filter (is_director sample_lib) (records sample_lib (PStr crew_nameless))
   = [PDict [(PStr ''job'', PStr ''DIRECTOR'')]]"
  unfolding sample_records_nameless by code_simp

theorem get_crew_director_only_directors_witness:
  "is_cell (PStr crew_nameless)
   \<and> get_crew_director sample_lib (PStr crew_nameless) = Inr [PNone]
   \<and> filter (is_director sample_lib) (records sample_lib (PStr crew_nameless))
       = [PDict [(PStr ''job'', PStr ''DIRECTOR'')]]
   \<and> [PNone] = map (\<lambda>item. item_get item ''name'')
                 (filter (is_director sample_lib) (records sample_lib (PStr crew_nameless)))
   \<and> \<not> has_key (named ''Flo'') ''job'' \<and> \<not> is_director sample_lib (named ''Flo'')"
proof -
  note T = get_crew_director_only_directors [of "PStr crew_nameless" sample_lib "[PNone]",
      OF _ sample_directors_nameless]
  have c: "is_cell (PStr crew_nameless)" by simp
  from T [OF c] have eq: "[PNone] = map (\<lambda>item. item_get item ''name'')
      (filter (is_director sample_lib) (records sample_lib (PStr crew_nameless)))"
    by (rule conjunct1)
  from T [OF c] have "\<forall>item \<in> set (records sample_lib (PStr crew_nameless)).
      \<not> has_key item ''job'' \<longrightarrow> \<not> is_director sample_lib item"
    by (rule conjunct2)
  then have flo: "\<not> has_key (named ''Flo'') ''job'' \<and> \<not> is_director sample_lib (named ''Flo'')"
    unfolding sample_records_nameless by (simp add: named_def)
  from c sample_directors_nameless sample_is_director eq flo show ?thesis by blast
qed

section \<open>The tag string\<close>

lemma clean_column_eq:
  "optional_list (row k) \<Longrightarrow>
   clean_column L row k
   = Inr (case row k of Some (PList xs) \<Rightarrow> clean_token_list L xs | _ \<Rightarrow> [])"
  by (cases "row k" rule: optional_list.cases)
     (simp_all add: clean_column_def row_get_def py_or_def py_iter_def seq_def)

lemma apply_each_truthy_PStr:
  "apply_each (py_str L) (filter truthy (map PStr ts)) = Inr (filter (\<lambda>t. t \<noteq> []) ts)"
  by (induction ts) (simp_all add: py_str_def seq_def)

lemma tokens_eq:
  "tokens L row k
   = filter (\<lambda>t. t \<noteq> []) (case row k of Some (PList xs) \<Rightarrow> clean_token_list L xs | _ \<Rightarrow> [])"
  by (simp add: tokens_def split: option.splits pyval.splits)

lemma apply_each_parts:
  "apply_each (py_str L)
     (filter truthy ([o1] @ map PStr gs @ map PStr ks @ map PStr cs @ map PStr ds))
   = seq (apply_each (py_str L) (filter truthy [o1]))
       (\<lambda>syn. Inr (syn @ filter (\<lambda>t. t \<noteq> []) gs @ filter (\<lambda>t. t \<noteq> []) ks
                    @ filter (\<lambda>t. t \<noteq> []) cs @ filter (\<lambda>t. t \<noteq> []) ds))"
proof -
  have "filter truthy (map PStr gs @ map PStr ks @ map PStr cs @ map PStr ds)
      = filter truthy (map PStr (gs @ ks @ cs @ ds))"
    by simp
  then have "apply_each (py_str L)
      (filter truthy (map PStr gs @ map PStr ks @ map PStr cs @ map PStr ds))
      = Inr (filter (\<lambda>t. t \<noteq> []) gs @ filter (\<lambda>t. t \<noteq> []) ks
             @ filter (\<lambda>t. t \<noteq> []) cs @ filter (\<lambda>t. t \<noteq> []) ds)"
    by (simp only: apply_each_truthy_PStr filter_append)
  then show ?thesis
    by (simp only: filter_append apply_each_append) (simp add: seq_def)
qed

text \<open>The tag string the code builds, with the text of the synopsis as the code takes it.\<close>

lemma make_tags_eq:
  assumes "\<forall>k \<in> set parsed_columns. optional_list (row k)"
  shows "make_tags L row =
           seq (apply_each (py_str L) (filter truthy [py_or (row_get row ''overview'') (PStr [])]))
             (\<lambda>syn. Inr (str_join '' '' (syn @ tokens L row ''genres_parsed''
                @ tokens L row ''keywords_parsed'' @ tokens L row ''cast_parsed''
                @ tokens L row ''director_parsed'')))"
proof -
  from assms have g: "optional_list (row ''genres_parsed'')"
    and k: "optional_list (row ''keywords_parsed'')"
    and c: "optional_list (row ''cast_parsed'')"
    and d: "optional_list (row ''director_parsed'')"
    by (simp_all add: parsed_columns_def)
  show ?thesis
    unfolding make_tags_def Let_def
      clean_column_eq [of row "''genres_parsed''", OF g]
      clean_column_eq [of row "''keywords_parsed''", OF k]
      clean_column_eq [of row "''cast_parsed''", OF c]
      clean_column_eq [of row "''director_parsed''", OF d]
      apply_each_parts tokens_eq
    by (simp add: seq_def split: sum.splits)
qed

lemma synopsis_code:
  assumes "row_get row ''overview'' \<noteq> PNaN"
  shows "apply_each (py_str L) (filter truthy [py_or (row_get row ''overview'') (PStr [])])
         = synopsis L row"
proof (cases "row ''overview''")
  case None
  then show ?thesis by (simp add: synopsis_def row_get_def py_or_def)
next
  case (Some v)
  with assms have "v \<noteq> PNaN" by (simp add: row_get_def)
  then have "isna v \<Longrightarrow> \<not> truthy v" by (cases v) simp_all
  with Some show ?thesis
    by (auto simp add: synopsis_def row_get_def py_or_def seq_def split: sum.splits)
qed

text \<open>
  Away from the missing cell the code builds the tag string of section 4.4: for every
  row whose token columns are lists, false or absent and whose synopsis is not NaN,
  \<^verbatim>\<open>make_tags\<close> is the space-join of the five contributions in their order.
\<close>

lemma make_tags_meets_spec:
  assumes "\<forall>k \<in> set parsed_columns. optional_list (row k)"
    and "row_get row ''overview'' \<noteq> PNaN"
  shows "make_tags L row = tag_string L row"
  unfolding make_tags_eq [OF assms(1)] synopsis_code [OF assms(2)] tag_string_def
  by (rule refl)

lemma missing_overview_row_optional:
  "\<forall>k \<in> set parsed_columns. optional_list (missing_overview_row k)"
  by (simp add: parsed_columns_def missing_overview_row_def)

text \<open>
  C4: the claim asks of every row that the tag string be the space-join of synopsis,
  genre, keyword, cast and director tokens, an absent field contributing nothing. The
  code misses one absent field: at the row \<^verbatim>\<open>main\<close> builds for a movie whose overview
  cell is empty, where the tag string of section 4.4 is empty, \<^verbatim>\<open>make_tags\<close> returns
  \<^verbatim>\<open>nan\<close>, the text of the NaN that \<^verbatim>\<open>or ''\<close> at line 87 lets through.
\<close>

theorem make_tags_missing_overview:
  "make_tags L missing_overview_row = Inr ''nan''
   \<and> tag_string L missing_overview_row = Inr []"
proof
  show "make_tags L missing_overview_row = Inr ''nan''"
    unfolding make_tags_eq [OF missing_overview_row_optional]
    by (simp add: missing_overview_row_def row_get_def py_or_def py_str_def seq_def tokens_def)
next
  show "tag_string L missing_overview_row = Inr []"
    by (simp add: tag_string_def synopsis_def missing_overview_row_def seq_def tokens_def)
qed

lemma sample_row_optional: "\<forall>k \<in> set parsed_columns. optional_list (sample_row k)"
  by (simp add: parsed_columns_def sample_row_def)

lemma sample_row_tags:
  "make_tags sample_lib sample_row = Inr ''space battle sciencefiction janedoe''"
proof -
  have "row_get sample_row ''overview'' \<noteq> PNaN"
    by (simp add: row_get_def sample_row_def)
  from make_tags_meets_spec [OF sample_row_optional this]
  have "make_tags sample_lib sample_row = tag_string sample_lib sample_row" .
  also have "\<dots> = Inr ''space battle sciencefiction janedoe''"
    by code_simp
  finally show ?thesis .
qed

lemma strings_of_drop_None: "strings_of (filter (\<lambda>d. d \<noteq> PNone) ds) = strings_of ds"
  by (induction ds rule: strings_of.induct) simp_all

lemma clean_token_list_drop_None:
  "clean_token_list L (filter (\<lambda>d. d \<noteq> PNone) ds) = clean_token_list L ds"
  by (simp add: clean_token_list_eq strings_of_drop_None)

lemma nameless_item_get: "\<not> has_key item ''name'' \<Longrightarrow> item_get item ''name'' = PNone"
  by (cases item) (simp_all add: item_get_def dict_get_def)

lemma optional_list_director:
  assumes "\<forall>k \<in> set parsed_columns. optional_list (row k)"
  shows "\<forall>k \<in> set parsed_columns. optional_list ((row(''director_parsed'' \<mapsto> PList ds)) k)"
  using assms by (simp add: parsed_columns_def)

lemma make_tags_director:
  assumes "\<forall>k \<in> set parsed_columns. optional_list (row k)"
  shows "make_tags L (row(''director_parsed'' \<mapsto> PList ds)) =
           seq (apply_each (py_str L) (filter truthy [py_or (row_get row ''overview'') (PStr [])]))
             (\<lambda>syn. Inr (str_join '' '' (syn @ tokens L row ''genres_parsed''
                @ tokens L row ''keywords_parsed'' @ tokens L row ''cast_parsed''
                @ filter (\<lambda>t. t \<noteq> []) (clean_token_list L ds))))"
  unfolding make_tags_eq [OF optional_list_director [OF assms]]
  by (simp add: tokens_def row_get_def)

text \<open>
  C10: when a crew field holds a record whose \<^verbatim>\<open>job\<close> equals \<^verbatim>\<open>director\<close> up to case
  and which has no \<^verbatim>\<open>name\<close> key, the list \<^verbatim>\<open>get_crew_director\<close> returns contains
  \<^verbatim>\<open>None\<close>; \<^verbatim>\<open>clean_token_list\<close> drops every \<^verbatim>\<open>None\<close>, so \<^verbatim>\<open>make_tags\<close> on a row with
  this director column gives what it gives without the \<^verbatim>\<open>None\<close> entries: it returns the
  tag string whenever \<^verbatim>\<open>str\<close> of the synopsis returns, and its only exception is that
  of \<^verbatim>\<open>str\<close> on the synopsis, never one from a \<^verbatim>\<open>None\<close> entry.
\<close>

theorem nameless_director_gives_None:
  assumes "is_cell x" and "get_crew_director L x = Inr ds"
    and "item \<in> set (records L x)" and "is_director L item" and "\<not> has_key item ''name''"
    and "\<forall>k \<in> set parsed_columns. optional_list (row k)"
  shows "PNone \<in> set ds
         \<and> clean_token_list L ds = clean_token_list L (filter (\<lambda>d. d \<noteq> PNone) ds)
         \<and> (printable L (py_or (row_get row ''overview'') (PStr [])) \<longrightarrow>
               (\<exists>tags. make_tags L (row(''director_parsed'' \<mapsto> PList ds)) = Inr tags))
         \<and> (\<forall>e. make_tags L (row(''director_parsed'' \<mapsto> PList ds)) = Inl e \<longrightarrow>
               py_str L (py_or (row_get row ''overview'') (PStr [])) = Inl e)
         \<and> make_tags L (row(''director_parsed'' \<mapsto> PList ds))
             = make_tags L (row(''director_parsed'' \<mapsto> PList (filter (\<lambda>d. d \<noteq> PNone) ds)))"
proof -
  have ds: "ds = map (\<lambda>item. item_get item ''name'') (filter (is_director L) (records L x))"
    using assms(2) by (rule get_crew_director_eq)
  from assms(3,4) have "item \<in> set (filter (is_director L) (records L x))" by simp
  then have "item_get item ''name'' \<in> set ds" unfolding ds set_map by (rule imageI)
  with assms(5) have a: "PNone \<in> set ds" by (simp add: nameless_item_get)
  have b: "clean_token_list L ds = clean_token_list L (filter (\<lambda>d. d \<noteq> PNone) ds)"
    by (simp add: clean_token_list_drop_None)
  have e: "\<forall>e. make_tags L (row(''director_parsed'' \<mapsto> PList ds)) = Inl e \<longrightarrow>
      py_str L (py_or (row_get row ''overview'') (PStr [])) = Inl e"
    unfolding make_tags_director [OF assms(6)]
    by (auto simp add: seq_def split: sum.splits if_splits)
  have c: "printable L (py_or (row_get row ''overview'') (PStr [])) \<longrightarrow>
      (\<exists>tags. make_tags L (row(''director_parsed'' \<mapsto> PList ds)) = Inr tags)"
  proof
    assume "printable L (py_or (row_get row ''overview'') (PStr []))"
    then obtain s where "py_str L (py_or (row_get row ''overview'') (PStr [])) = Inr s"
      by (auto simp add: printable_iff)
    with e show "\<exists>tags. make_tags L (row(''director_parsed'' \<mapsto> PList ds)) = Inr tags"
      by (cases "make_tags L (row(''director_parsed'' \<mapsto> PList ds))") auto
  qed
  have d: "make_tags L (row(''director_parsed'' \<mapsto> PList ds))
      = make_tags L (row(''director_parsed'' \<mapsto> PList (filter (\<lambda>d. d \<noteq> PNone) ds)))"
    unfolding make_tags_director [OF assms(6)] by (simp add: clean_token_list_drop_None)
  from a b c e d show ?thesis by blast
qed

lemma overview_row_optional: "\<forall>k \<in> set parsed_columns. optional_list (overview_row k)"
  by (simp add: parsed_columns_def overview_row_def)

theorem nameless_director_gives_None_witness:
  "is_cell (PStr crew_nameless)
   \<and> get_crew_director sample_lib (PStr crew_nameless) = Inr [PNone]
   \<and> PDict [(PStr ''job'', PStr ''DIRECTOR'')] \<in> set (records sample_lib (PStr crew_nameless))
   \<and> is_director sample_lib (PDict [(PStr ''job'', PStr ''DIRECTOR'')])
   \<and> \<not> has_key (PDict [(PStr ''job'', PStr ''DIRECTOR'')]) ''name''
   \<and> list_all (\<lambda>k. optional_list (overview_row k)) parsed_columns
   \<and> printable sample_lib (py_or (row_get overview_row ''overview'') (PStr []))
   \<and> PNone \<in> set [PNone]
   \<and> clean_token_list sample_lib [PNone] = []
   \<and> make_tags sample_lib (overview_row(''director_parsed'' \<mapsto> PList [PNone])) = Inr ''space battle''"
proof -
  have c: "is_cell (PStr crew_nameless)" by simp
  have i: "PDict [(PStr ''job'', PStr ''DIRECTOR'')] \<in> set (records sample_lib (PStr crew_nameless))"
    unfolding sample_records_nameless by simp
  have d: "is_director sample_lib (PDict [(PStr ''job'', PStr ''DIRECTOR'')])"
    by code_simp
  have n: "\<not> has_key (PDict [(PStr ''job'', PStr ''DIRECTOR'')]) ''name''"
    by simp
  have p: "printable sample_lib (py_or (row_get overview_row ''overview'') (PStr []))"
    by (simp add: overview_row_def row_get_def py_or_def text_printable)
  note T = nameless_director_gives_None [OF c sample_directors_nameless i d n overview_row_optional]
  from T have "make_tags sample_lib (overview_row(''director_parsed'' \<mapsto> PList [PNone]))
      = make_tags sample_lib (overview_row(''director_parsed'' \<mapsto> PList []))"
    by simp
  also have "\<dots> = Inr ''space battle''"
    by (simp add: make_tags_def clean_column_def row_get_def py_or_def py_iter_def seq_def
        overview_row_def py_str_def)
  finally have m: "make_tags sample_lib (overview_row(''director_parsed'' \<mapsto> PList [PNone]))
      = Inr ''space battle''" .
  from T have e: "clean_token_list sample_lib [PNone] = []" by simp
  from c sample_directors_nameless i d n overview_row_optional p m e show ?thesis
    by (simp add: list_all_iff)
qed

section \<open>The run of the pipeline\<close>

lemma message_names_both_files:
  "sublist movies_csv missing_message \<and> sublist credits_csv missing_message"
  by code_simp

text \<open>
  C9: when one of the two input files is absent, \<^verbatim>\<open>main\<close> prints one message, which
  names both files, and returns without an exception; the file system is unchanged, so
  no artifact is written.
\<close>

theorem main_missing_input:
  assumes "\<not> (path_exists w movies_csv \<and> path_exists w credits_csv)"
  shows "main L w = (w\<lparr>stdout := stdout w @ [missing_message]\<rparr>, None)
         \<and> files (fst (main L w)) = files w
         \<and> snd (main L w) = None
         \<and> sublist movies_csv missing_message \<and> sublist credits_csv missing_message"
  using assms message_names_both_files by (simp add: main_def print_def)

theorem main_missing_input_witness:
  "\<not> (path_exists credits_missing_world movies_csv \<and> path_exists credits_missing_world credits_csv)
   \<and> main sample_lib credits_missing_world
       = (\<lparr>files = [movies_csv \<mapsto> CsvFile movies_text], stdout = [missing_message]\<rparr>, None)
   \<and> files (fst (main sample_lib credits_missing_world)) = files credits_missing_world"
proof -
  have h: "\<not> (path_exists credits_missing_world movies_csv \<and> path_exists credits_missing_world credits_csv)"
    by (simp add: path_exists_def credits_missing_world_def movies_csv_def credits_csv_def)
  from main_missing_input [OF h, of sample_lib] h show ?thesis
    by (simp add: credits_missing_world_def)
qed

lemma frame_set_rows_tags:
  "frame_col (frame_set df ''tags'' vs) ''tags''
   = Inr (map (\<lambda>row. row_get row ''tags'') (rows (frame_set df ''tags'' vs)))"
  by (simp add: frame_col_def frame_set_def)

lemma enrich_tags_col:
  assumes "enrich L a b = Inr df"
  shows "frame_col df ''tags'' = Inr (map (\<lambda>row. row_get row ''tags'') (rows df))"
  using assms unfolding enrich_def Let_def
  apply (elim seq_Inr [elim_format] exE conjE)
  apply (clarsimp simp add: frame_set_rows_tags)
  done

lemma build_eq:
  assumes "enrich L a b = Inr df"
  shows "build L a b
         = seq (tags_of L df) (\<lambda>docs.
           seq (cv_fit_transform L docs) (\<lambda>vectors. Inr (df, cosine_similarity vectors)))"
  by (simp add: build_def assms seq_def enrich_tags_col [OF assms] tags_of_def)

lemma build_result:
  assumes "build L a b = Inr (df, sim)"
  shows "\<exists>docs V. tags_of L df = Inr docs \<and> cv_fit_transform L docs = Inr V
           \<and> sim = cosine_similarity V"
proof -
  from assms obtain df' where e: "enrich L a b = Inr df'"
    unfolding build_def by (auto dest: seq_Inr)
  from assms show ?thesis
    unfolding build_eq [OF e] by (auto dest!: seq_Inr)
qed

lemma cosine_similarity_nth:
  "i < length V \<Longrightarrow> j < length V \<Longrightarrow> cosine_similarity V ! i ! j = cosine (V ! i) (V ! j)"
  by (simp add: cosine_similarity_def)

lemma pkl_paths_differ: "movie_list_pkl \<noteq> similarity_pkl"
  by (simp add: movie_list_pkl_def similarity_pkl_def)

lemma main_success:
  assumes "path_exists w movies_csv \<and> path_exists w credits_csv" and "snd (main L w) = None"
  shows "\<exists>a b df sim. build L a b = Inr (df, sim)
           \<and> files (fst (main L w)) movie_list_pkl = Some (PickledFrame df)
           \<and> files (fst (main L w)) similarity_pkl = Some (PickledMatrix sim)"
proof -
  from assms(1) obtain a b
    where a: "files w movies_csv = Some a" and b: "files w credits_csv = Some b"
    by (auto simp add: path_exists_def)
  have "\<exists>df sim. build L a b = Inr (df, sim)
           \<and> files (fst (main L w)) movie_list_pkl = Some (PickledFrame df)
           \<and> files (fst (main L w)) similarity_pkl = Some (PickledMatrix sim)"
    using assms a b pkl_paths_differ
    by (auto simp add: main_def path_exists_def print_def dump_def
        movie_list_pkl_def [symmetric] similarity_pkl_def [symmetric]
        split: sum.splits option.splits prod.splits fsnode.splits if_splits)
  then show ?thesis by blast
qed

text \<open>
  C3: in every run that reads both inputs and returns normally, the two artifacts are
  the enriched table and the similarity matrix of the feature vectors of exactly this
  table's tag column as text, in the table's row order: entry \<open>(i, j)\<close> of the persisted
  matrix is the similarity of the vectors of rows \<open>i\<close> and \<open>j\<close> of the persisted table.
  The fact used of the vectorizer: it gives one vector per document.
\<close>

theorem main_artifacts_aligned:
  assumes "path_exists w movies_csv \<and> path_exists w credits_csv"
    and "snd (main L w) = None"
    and "\<forall>docs V. cv_fit_transform L docs = Inr V \<longrightarrow> length V = length docs"
  shows "\<exists>df docs V. files (fst (main L w)) movie_list_pkl = Some (PickledFrame df)
           \<and> files (fst (main L w)) similarity_pkl = Some (PickledMatrix (cosine_similarity V))
           \<and> tags_of L df = Inr docs
           \<and> cv_fit_transform L docs = Inr V
           \<and> length V = length (rows df)
           \<and> length (cosine_similarity V) = length (rows df)
           \<and> (\<forall>i < length (rows df). \<forall>j < length (rows df).
                 cosine_similarity V ! i ! j = cosine (V ! i) (V ! j))"
proof -
  from main_success [OF assms(1,2)] obtain a b df sim
    where b: "build L a b = Inr (df, sim)"
      and f1: "files (fst (main L w)) movie_list_pkl = Some (PickledFrame df)"
      and f2: "files (fst (main L w)) similarity_pkl = Some (PickledMatrix sim)"
    by blast
  from build_result [OF b] obtain docs V
    where d: "tags_of L df = Inr docs"
      and v: "cv_fit_transform L docs = Inr V" and s: "sim = cosine_similarity V"
    by blast
  from d have "length docs = length (rows df)"
    unfolding tags_of_def by (auto dest: apply_each_length)
  with assms(3) v have len: "length V = length (rows df)"
    by auto
  have "length (cosine_similarity V) = length (rows df)"
    using len by (simp add: cosine_similarity_def)
  moreover have "\<forall>i < length (rows df). \<forall>j < length (rows df).
      cosine_similarity V ! i ! j = cosine (V ! i) (V ! j)"
    using len by (simp add: cosine_similarity_nth)
  ultimately show ?thesis using f1 f2 d v s len by blast
qed

lemma sample_enrich_tags:
  "(case enrich sample_lib (CsvFile movies_text) (CsvFile credits_text) of
      Inl e \<Rightarrow> None
    | Inr df \<Rightarrow> Some (tags_of sample_lib df, length (rows df)))
   = Some (Inr sample_corpus, 2)"
  by code_simp

lemma sample_fit: "cv_fit_transform sample_lib = sample_fit_transform"
  by (simp add: sample_lib_def)

lemma sample_paths:
  "path_exists sample_world movies_csv \<and> path_exists sample_world credits_csv"
  by (simp add: path_exists_def sample_world_def)

lemma sample_main_returns: "snd (main sample_lib sample_world) = None"
proof -
  from sample_enrich_tags obtain df
    where e: "enrich sample_lib (CsvFile movies_text) (CsvFile credits_text) = Inr df"
      and t: "tags_of sample_lib df = Inr sample_corpus"
    by (auto split: sum.splits)
  have b: "build sample_lib (CsvFile movies_text) (CsvFile credits_text)
      = Inr (df, cosine_similarity sample_vectors)"
    by (simp add: build_eq [OF e] t sample_fit sample_fit_transform_def seq_def)
  have f: "files sample_world movies_csv = Some (CsvFile movies_text)"
    "files sample_world credits_csv = Some (CsvFile credits_text)"
    "files sample_world ''model'' = None"
    "files sample_world ''model/movie_list.pkl'' = None"
    "files sample_world ''model/similarity.pkl'' = None"
    by (simp_all add: sample_world_def movies_csv_def credits_csv_def)
  show ?thesis
    using sample_paths
    by (simp add: main_def f b makedirs_def dump_def split: option.splits fsnode.splits)
qed

theorem main_artifacts_aligned_witness:
  "path_exists sample_world movies_csv \<and> path_exists sample_world credits_csv
   \<and> snd (main sample_lib sample_world) = None
   \<and> (\<exists>df. files (fst (main sample_lib sample_world)) movie_list_pkl = Some (PickledFrame df)
          \<and> tags_of sample_lib df = Inr sample_corpus \<and> length (rows df) = 2)
   \<and> files (fst (main sample_lib sample_world)) similarity_pkl
       = Some (PickledMatrix (cosine_similarity sample_vectors))"
proof -
  have h: "\<forall>docs V. cv_fit_transform sample_lib docs = Inr V \<longrightarrow> length V = length docs"
    by (simp add: sample_fit sample_fit_transform_def sample_corpus_def sample_vectors_def)
  from main_artifacts_aligned [OF sample_paths sample_main_returns h] obtain df docs V
    where f1: "files (fst (main sample_lib sample_world)) movie_list_pkl = Some (PickledFrame df)"
      and f2: "files (fst (main sample_lib sample_world)) similarity_pkl
                = Some (PickledMatrix (cosine_similarity V))"
      and d: "tags_of sample_lib df = Inr docs"
      and v: "cv_fit_transform sample_lib docs = Inr V"
      and len: "length V = length (rows df)"
    by blast
  from v have t: "docs = sample_corpus" and V: "V = sample_vectors"
    by (auto simp add: sample_fit sample_fit_transform_def split: if_splits)
  from len V have n: "length (rows df) = 2" by (simp add: sample_vectors_def)
  from f1 d t n have "\<exists>df. files (fst (main sample_lib sample_world)) movie_list_pkl = Some (PickledFrame df)
      \<and> tags_of sample_lib df = Inr sample_corpus \<and> length (rows df) = 2"
    by blast
  with sample_paths sample_main_returns f2 V show ?thesis by simp
qed

section \<open>The similarity matrix\<close>

lemma dot_commute: "dot u v = dot v u"
  unfolding dot_def
proof (induction u arbitrary: v)
  case Nil
  show ?case by simp
next
  case (Cons a u)
  show ?case by (cases v) (simp_all add: Cons mult.commute)
qed

lemma dot_self_zero: "dot u u = 0 \<longleftrightarrow> zero_vector u"
  unfolding dot_def zero_vector_def by (induction u) simp_all

lemma norm2_zero: "norm2 u = 0 \<longleftrightarrow> zero_vector u"
  by (simp add: norm2_def dot_self_zero)

lemma cosine_commute: "cosine u v = cosine v u"
  by (simp add: cosine_def dot_commute mult.commute disj_commute)

lemma cosine_self: "cosine u u = (if zero_vector u then 0 else 1)"
  by (simp add: cosine_def norm2_zero) (simp add: norm2_def dot_self_zero)

lemma cosine_zero: "zero_vector u \<or> zero_vector v \<Longrightarrow> cosine u v = 0"
  by (auto simp add: cosine_def norm2_zero)

text \<open>
  C1: for every feature matrix and every item \<open>i\<close>, the diagonal entry is 1 when the
  vector of \<open>i\<close> is not zero and 0 when it is zero, and every pair with a zero vector has
  similarity 0. Every entry is a number: the division is made on non-zero norms only.
\<close>

theorem cosine_similarity_diagonal:
  assumes "i < length X"
  shows "cosine_similarity X ! i ! i = (if zero_vector (X ! i) then 0 else 1)
         \<and> (\<forall>j < length X. zero_vector (X ! i) \<or> zero_vector (X ! j) \<longrightarrow>
               cosine_similarity X ! i ! j = 0 \<and> cosine_similarity X ! j ! i = 0)"
proof (intro conjI allI impI)
  show "cosine_similarity X ! i ! i = (if zero_vector (X ! i) then 0 else 1)"
    using assms by (simp add: cosine_similarity_nth cosine_self)
next
  fix j
  assume j: "j < length X" and z: "zero_vector (X ! i) \<or> zero_vector (X ! j)"
  from z have "cosine (X ! i) (X ! j) = 0" by (rule cosine_zero)
  moreover from this have "cosine (X ! j) (X ! i) = 0" by (simp add: cosine_commute)
  ultimately show "cosine_similarity X ! i ! j = 0" and "cosine_similarity X ! j ! i = 0"
    using assms j by (simp_all add: cosine_similarity_nth)
qed

theorem cosine_similarity_diagonal_witness:
  "(1::nat) < length [[1, 0, 2], [0, 0, 0::nat]]
   \<and> cosine_similarity [[1, 0, 2], [0, 0, 0]] ! 0 ! 0 = 1
   \<and> cosine_similarity [[1, 0, 2], [0, 0, 0]] ! 1 ! 1 = 0
   \<and> cosine_similarity [[1, 0, 2], [0, 0, 0]] ! 1 ! 0 = 0
   \<and> cosine_similarity [[1, 0, 2], [0, 0, 0]] ! 0 ! 1 = 0"
  using cosine_similarity_diagonal [of 0 "[[1, 0, 2], [0, 0, 0]]"]
    cosine_similarity_diagonal [of 1 "[[1, 0, 2], [0, 0, 0]]"]
  by (simp add: zero_vector_def)

text \<open>
  C2: for every feature matrix, the similarity matrix is square, with as many rows and
  columns as the feature matrix has rows, and symmetric.
\<close>

theorem cosine_similarity_symmetric:
  "length (cosine_similarity X) = length X
   \<and> (\<forall>i < length X. length (cosine_similarity X ! i) = length X)
   \<and> (\<forall>i < length X. \<forall>j < length X. cosine_similarity X ! i ! j = cosine_similarity X ! j ! i)"
proof (intro conjI allI impI)
  show "length (cosine_similarity X) = length X"
    by (simp add: cosine_similarity_def)
next
  fix i
  assume "i < length X"
  then show "length (cosine_similarity X ! i) = length X"
    by (simp add: cosine_similarity_def)
next
  fix i j
  assume "i < length X" and "j < length X"
  then have "cosine_similarity X ! i ! j = cosine (X ! i) (X ! j)"
    and "cosine_similarity X ! j ! i = cosine (X ! j) (X ! i)"
    by (simp_all add: cosine_similarity_nth)
  then show "cosine_similarity X ! i ! j = cosine_similarity X ! j ! i"
    by (simp add: cosine_commute)
qed

theorem cosine_similarity_symmetric_witness:
  "length (cosine_similarity sample_vectors) = 2
   \<and> length (cosine_similarity sample_vectors ! 0) = 2
   \<and> length (cosine_similarity sample_vectors ! 1) = 2
   \<and> cosine_similarity sample_vectors ! 0 ! 1 = cosine_similarity sample_vectors ! 1 ! 0"
  using cosine_similarity_symmetric [of sample_vectors]
  by (simp add: sample_vectors_def)

end
